theory Spec2Isabelle
  imports Main
begin

section \<open>Strings, bytes and the platform's text functions\<close>

text \<open>
  A JavaScript string is a sequence of UTF-16 code units; a \<^verbatim>\<open>Uint8Array\<close> is a
  sequence of bytes. Both are lists of natural numbers here (code units below
  \<open>0x10000\<close>, bytes below \<open>0x100\<close>); no arithmetic of the program overflows them.
  A JavaScript value that the program passes around is either \<^verbatim>\<open>undefined\<close> or an
  error object with its message.
\<close>

type_synonym jsstring = "nat list"
type_synonym bytes = "nat list"

datatype jsval = Undefined | Error string

text \<open>
  \<^verbatim>\<open>String.fromCodePoint(cp)\<close>: one code unit in the basic plane, a surrogate pair
  above it, a \<^verbatim>\<open>RangeError\<close> beyond \<open>U+10FFFF\<close>.
\<close>

definition String_fromCodePoint :: "nat \<Rightarrow> jsval + jsstring" where
  "String_fromCodePoint cp =
     (if 0x10FFFF < cp then Inl (Error ''RangeError'')
      else if cp < 0x10000 then Inr [cp]
      else Inr [0xD800 + (cp - 0x10000) div 0x400, 0xDC00 + (cp - 0x10000) mod 0x400])"

text \<open>
  \<^verbatim>\<open>Array.from({ length: n }, (_, i) => f(i))\<close>: calls \<open>f\<close> on \<open>0, \<dots>, n - 1\<close> in
  order; the first exception ends the construction.
\<close>

fun Array_from :: "('a \<Rightarrow> jsval + 'b) \<Rightarrow> 'a list \<Rightarrow> jsval + 'b list" where
  "Array_from f [] = Inr []"
| "Array_from f (i # is) =
     (case f i of
        Inl e \<Rightarrow> Inl e
      | Inr y \<Rightarrow> (case Array_from f is of Inl e \<Rightarrow> Inl e | Inr ys \<Rightarrow> Inr (y # ys)))"

text \<open>\<^verbatim>\<open>parts.join("")\<close> with the empty separator is concatenation.\<close>

definition join_empty :: "jsstring list \<Rightarrow> jsstring" where
  "join_empty parts = concat parts"

text \<open>
  \<^verbatim>\<open>new TextEncoder().encode(s)\<close>: the string is read as Unicode scalar values (a
  surrogate pair is one code point, a lone surrogate becomes \<open>U+FFFD\<close>), and each scalar
  value is written in UTF-8.
\<close>

definition is_high_surrogate :: "nat \<Rightarrow> bool" where
  "is_high_surrogate u = (0xD800 \<le> u \<and> u < 0xDC00)"

definition is_low_surrogate :: "nat \<Rightarrow> bool" where
  "is_low_surrogate u = (0xDC00 \<le> u \<and> u < 0xE000)"

fun scalar_values :: "jsstring \<Rightarrow> nat list" where
  "scalar_values [] = []"
| "scalar_values [u] =
     (if is_high_surrogate u \<or> is_low_surrogate u then [0xFFFD] else [u])"
| "scalar_values (u # v # us) =
     (if is_high_surrogate u \<and> is_low_surrogate v
        then (0x10000 + (u - 0xD800) * 0x400 + (v - 0xDC00)) # scalar_values us
      else if is_high_surrogate u \<or> is_low_surrogate u
        then 0xFFFD # scalar_values (v # us)
      else u # scalar_values (v # us))"

definition utf8 :: "nat \<Rightarrow> bytes" where
  "utf8 cp =
     (if cp < 0x80 then [cp]
      else if cp < 0x800 then [0xC0 + cp div 0x40, 0x80 + cp mod 0x40]
      else if cp < 0x10000 then
        [0xE0 + cp div 0x1000, 0x80 + (cp div 0x40) mod 0x40, 0x80 + cp mod 0x40]
      else
        [0xF0 + cp div 0x40000, 0x80 + (cp div 0x1000) mod 0x40,
         0x80 + (cp div 0x40) mod 0x40, 0x80 + cp mod 0x40])"

definition TextEncoder_encode :: "jsstring \<Rightarrow> bytes" where
  "TextEncoder_encode s = concat (map utf8 (scalar_values s))"

section \<open>The frame source\<close>

text \<open>\<^verbatim>\<open>"\x1b[1D"\<close>, \<^verbatim>\<open>"\x1b[?25l"\<close> and \<^verbatim>\<open>"\x1b[?25h"\<close>.\<close>

definition ANSI_CURSOR_LEFT :: jsstring where
  "ANSI_CURSOR_LEFT = [0x1B, 0x5B, 0x31, 0x44]"

definition ANSI_CURSOR_HIDE :: jsstring where
  "ANSI_CURSOR_HIDE = [0x1B, 0x5B, 0x3F, 0x32, 0x35, 0x6C]"

definition ANSI_CURSOR_SHOW :: jsstring where
  "ANSI_CURSOR_SHOW = [0x1B, 0x5B, 0x3F, 0x32, 0x35, 0x68]"

definition ALL_BRAILLE_CHARS :: "jsval + jsstring list" where
  "ALL_BRAILLE_CHARS =
     Array_from (\<lambda>i. String_fromCodePoint (0x2800 + i)) [0 ..< 0x28FF - 0x2800 + 1]"

definition encode :: "jsstring \<Rightarrow> bytes" where
  "encode char = TextEncoder_encode (join_empty [ANSI_CURSOR_LEFT, char])"

definition ALL_BRAILLE_FRAMES :: "jsval + bytes list" where
  "ALL_BRAILLE_FRAMES =
     (case ALL_BRAILLE_CHARS of Inl e \<Rightarrow> Inl e | Inr chars \<Rightarrow> Inr (map encode chars))"

text \<open>
  The module's functions run only once its constants exist; \<open>frames\<close> is the array
  that \<^verbatim>\<open>ALL_BRAILLE_FRAMES\<close> then holds.
\<close>

definition frames :: "bytes list" where
  "frames = (case ALL_BRAILLE_FRAMES of Inl e \<Rightarrow> [] | Inr fs \<Rightarrow> fs)"

section \<open>The platform: terminal streams and timers\<close>

text \<open>
  The program acts on the outside through \<^verbatim>\<open>Deno.stderr.write\<close>, \<^verbatim>\<open>setTimeout\<close>,
  \<^verbatim>\<open>Deno.stdin\<close> and \<^verbatim>\<open>console.log\<close>. The world records every such call in
  program order: \<open>stderr\<close> is the sequence of byte arrays handed to the sink, \<open>timers\<close>
  the delays requested, \<open>stdin_calls\<close> the calls on the input stream. Whether a call
  succeeds is the environment's choice: an awaited operation is completed later with a
  \<open>completion\<close>, \<open>Inr ()\<close> for success and \<open>Inl e\<close> for a failure \<open>e\<close>.
\<close>

datatype stdin_call = SetRaw bool | Read

record world =
  stderr :: "bytes list"
  timers :: "int list"
  stdin_calls :: "stdin_call list"
  stdin_raw :: bool
  stdout :: "string list"

type_synonym completion = "jsval + unit"

definition world0 :: world where
  "world0 = \<lparr>stderr = [], timers = [], stdin_calls = [], stdin_raw = False, stdout = []\<rparr>"

definition Deno_stderr_write :: "bytes \<Rightarrow> world \<Rightarrow> world" where
  "Deno_stderr_write bs w = w\<lparr>stderr := stderr w @ [bs]\<rparr>"

text \<open>\<^verbatim>\<open>sleep(ms)\<close> is a promise that a timer of \<open>ms\<close> milliseconds fulfils.\<close>

definition sleep :: "int \<Rightarrow> world \<Rightarrow> world" where
  "sleep ms w = w\<lparr>timers := timers w @ [ms]\<rparr>"

text \<open>
  \<^verbatim>\<open>Deno.stdin.setRaw(mode)\<close> is synchronous; it throws when the environment says so
  (the input is not a terminal), and then leaves the mode as it was.
\<close>

definition Deno_stdin_setRaw :: "bool \<Rightarrow> completion \<Rightarrow> world \<Rightarrow> completion \<times> world" where
  "Deno_stdin_setRaw mode r w =
     (r, w\<lparr>stdin_calls := stdin_calls w @ [SetRaw mode],
           stdin_raw := (case r of Inl e \<Rightarrow> stdin_raw w | Inr u \<Rightarrow> mode)\<rparr>)"

definition Deno_stdin_read :: "world \<Rightarrow> world" where
  "Deno_stdin_read w = w\<lparr>stdin_calls := stdin_calls w @ [Read]\<rparr>"

definition console_log :: "string \<Rightarrow> world \<Rightarrow> world" where
  "console_log line w = w\<lparr>stdout := stdout w @ [line]\<rparr>"

section \<open>The completion signal: class Deferred\<close>

text \<open>
  A native promise is pending, fulfilled with a value or rejected with a reason; its
  two settling functions act on a pending promise only.
\<close>

datatype promise_state = Pending | Fulfilled jsval | Rejected jsval

definition promise_resolve :: "jsval \<Rightarrow> promise_state \<Rightarrow> promise_state" where
  "promise_resolve v p = (case p of Pending \<Rightarrow> Fulfilled v | Fulfilled x \<Rightarrow> p | Rejected x \<Rightarrow> p)"

definition promise_reject :: "jsval \<Rightarrow> promise_state \<Rightarrow> promise_state" where
  "promise_reject e p = (case p of Pending \<Rightarrow> Rejected e | Fulfilled x \<Rightarrow> p | Rejected x \<Rightarrow> p)"

text \<open>
  The fields of \<^verbatim>\<open>Deferred\<close>: the promise and the two private flags
  \<^verbatim>\<open>_isResolved\<close> and \<^verbatim>\<open>_isRejected\<close>.
\<close>

record deferred =
  promise :: promise_state
  priv_isResolved :: bool
  priv_isRejected :: bool

definition Deferred_new :: deferred where
  "Deferred_new = \<lparr>promise = Pending, priv_isResolved = False, priv_isRejected = False\<rparr>"

definition resolve :: "jsval \<Rightarrow> deferred \<Rightarrow> deferred" where
  "resolve v d = d\<lparr>priv_isResolved := True, promise := promise_resolve v (promise d)\<rparr>"

definition reject :: "jsval \<Rightarrow> deferred \<Rightarrow> deferred" where
  "reject reason d = d\<lparr>priv_isRejected := True, promise := promise_reject reason (promise d)\<rparr>"

definition isResolved :: "deferred \<Rightarrow> bool" where
  "isResolved d = priv_isResolved d"

definition isRejected :: "deferred \<Rightarrow> bool" where
  "isRejected d = priv_isRejected d"

definition isDone :: "deferred \<Rightarrow> bool" where
  "isDone d = (priv_isResolved d \<or> priv_isRejected d)"

text \<open>
  \<^verbatim>\<open>await p\<close> on a settled promise continues with its value or throws its reason
  (\<open>Inl\<close>); on a pending promise it does not continue yet (\<open>None\<close>).
\<close>

definition await_now :: "promise_state \<Rightarrow> (jsval + jsval) option" where
  "await_now p = (case p of Pending \<Rightarrow> None | Fulfilled v \<Rightarrow> Some (Inr v) | Rejected e \<Rightarrow> Some (Inl e))"

section \<open>The animation loop and its controller: function spin\<close>

text \<open>
  A call of \<^verbatim>\<open>spin\<close> creates the variables \<^verbatim>\<open>ms\<close>, \<^verbatim>\<open>cancelled\<close> and
  \<^verbatim>\<open>done\<close> (here \<open>spin_done\<close>) and starts \<^verbatim>\<open>spinInternal\<close>, whose progress is
  \<open>internalPromise\<close>: suspended at one of its three \<^verbatim>\<open>await\<close>s, returned, or ended
  by an exception. (\<^verbatim>\<open>cancelledPromise\<close> is declared and never used.)
\<close>

datatype internal_state =
    AwaitHide
  | AwaitFrame nat
  | AwaitSleep nat
  | Spinning
  | Returned
  | Threw jsval

record spinner =
  ms :: int
  cancelled :: bool
  spin_done :: deferred
  internalPromise :: internal_state

type_synonym state = "world \<times> spinner"

text \<open>
  \<^verbatim>\<open>internalPromise.then(done.resolve, done.resolve)\<close>: the first handler receives the
  value of a fulfilled \<^verbatim>\<open>internalPromise\<close>, the second the reason of a rejected one.
  The handler runs as soon as \<^verbatim>\<open>spinInternal\<close> has ended, before any further
  operation completes, so it is part of the step in which \<^verbatim>\<open>spinInternal\<close> ends.
\<close>

definition then_handlers :: "jsval + jsval \<Rightarrow> spinner \<Rightarrow> spinner" where
  "then_handlers outcome sp =
     (case outcome of
        Inr v \<Rightarrow> sp\<lparr>spin_done := resolve v (spin_done sp)\<rparr>
      | Inl reason \<Rightarrow> sp\<lparr>spin_done := resolve reason (spin_done sp)\<rparr>)"

definition internal_returns :: "spinner \<Rightarrow> spinner" where
  "internal_returns sp = then_handlers (Inr Undefined) (sp\<lparr>internalPromise := Returned\<rparr>)"

definition internal_throws :: "jsval \<Rightarrow> spinner \<Rightarrow> spinner" where
  "internal_throws e sp = then_handlers (Inl e) (sp\<lparr>internalPromise := Threw e\<rparr>)"

text \<open>
  The two loops of \<^verbatim>\<open>spinInternal\<close>, entered after the hide-cursor write: the
  \<^verbatim>\<open>while\<close> test, then the first round of the \<^verbatim>\<open>for\<close> loop with its own test of
  the flag before the write. The \<^verbatim>\<open>for\<close> loop never reaches a second round, as its
  body ends in a \<^verbatim>\<open>throw\<close>. Over an empty array the \<^verbatim>\<open>while\<close> loop would spin
  without ever yielding (\<open>Spinning\<close>).
\<close>

fun while_loop :: "state \<Rightarrow> state" where
  "while_loop (w, sp) =
     (if \<not> cancelled sp then
        (case frames of
           [] \<Rightarrow> (w, sp\<lparr>internalPromise := Spinning\<rparr>)
         | frame # rest \<Rightarrow>
             if cancelled sp then (w, internal_returns sp)
             else (Deno_stderr_write frame w, sp\<lparr>internalPromise := AwaitFrame 0\<rparr>))
      else (w, internal_returns sp))"

text \<open>
  \<^verbatim>\<open>spinInternal\<close> continues when the operation it awaits completes: a failed
  operation throws at the \<^verbatim>\<open>await\<close>; after the hide-cursor write come the loops,
  after a frame write \<^verbatim>\<open>sleep(ms)\<close>, and after the sleep \<^verbatim>\<open>throw new Error("test")\<close>.
\<close>

fun spinInternal_resume :: "completion \<Rightarrow> state \<Rightarrow> state" where
  "spinInternal_resume r (w, sp) =
     (case internalPromise sp of
        AwaitHide \<Rightarrow>
          (case r of Inl e \<Rightarrow> (w, internal_throws e sp) | Inr u \<Rightarrow> while_loop (w, sp))
      | AwaitFrame i \<Rightarrow>
          (case r of
             Inl e \<Rightarrow> (w, internal_throws e sp)
           | Inr u \<Rightarrow> (sleep (ms sp) w, sp\<lparr>internalPromise := AwaitSleep i\<rparr>))
      | AwaitSleep i \<Rightarrow>
          (case r of
             Inl e \<Rightarrow> (w, internal_throws e sp)
           | Inr u \<Rightarrow> (w, internal_throws (Error ''test'') sp))
      | Spinning \<Rightarrow> (w, sp)
      | Returned \<Rightarrow> (w, sp)
      | Threw e \<Rightarrow> (w, sp))"

text \<open>
  \<^verbatim>\<open>cancel\<close> runs in two parts: up to its \<^verbatim>\<open>await\<close> of the cleanup write, and from
  the completion of that write to its end. Its result is \<open>None\<close> while it still awaits
  \<^verbatim>\<open>done.promise\<close>.
\<close>

definition cleanup_sequence :: bytes where
  "cleanup_sequence =
     TextEncoder_encode (join_empty [ANSI_CURSOR_LEFT, [0x20], ANSI_CURSOR_LEFT, ANSI_CURSOR_SHOW])"

fun cancel_call :: "state \<Rightarrow> state" where
  "cancel_call (w, sp) = (Deno_stderr_write cleanup_sequence w, sp\<lparr>cancelled := True\<rparr>)"

fun cancel_resume :: "completion \<Rightarrow> state \<Rightarrow> completion option \<times> state" where
  "cancel_resume r (w, sp) =
     (case r of
        Inl e \<Rightarrow> (Some (Inl e), (w, sp))
      | Inr u \<Rightarrow>
          (let sp' = sp\<lparr>spin_done := resolve Undefined (spin_done sp)\<rparr>
           in (case await_now (promise (spin_done sp')) of
                 None \<Rightarrow> (None, (w, sp'))
               | Some (Inl e) \<Rightarrow> (Some (Inl e), (w, sp'))
               | Some (Inr v) \<Rightarrow> (Some (Inr ()), (w, sp')))))"

text \<open>
  \<^verbatim>\<open>spin(ms)\<close> itself: the parameter defaults to 500, and the call of
  \<^verbatim>\<open>spinInternal()\<close> runs to the first \<^verbatim>\<open>await\<close>, which issues the hide-cursor
  write. The returned \<^verbatim>\<open>cancel\<close> and \<^verbatim>\<open>done\<close> are \<open>cancel_call\<close>/\<open>cancel_resume\<close>
  and the promise of \<open>spin_done\<close>.
\<close>

definition spin :: "int option \<Rightarrow> world \<Rightarrow> state" where
  "spin ms_arg w =
     (Deno_stderr_write (TextEncoder_encode ANSI_CURSOR_HIDE) w,
      \<lparr>ms = (case ms_arg of None \<Rightarrow> 500 | Some m \<Rightarrow> m),
       cancelled = False,
       spin_done = Deferred_new,
       internalPromise = AwaitHide\<rparr>)"

text \<open>
  The event loop runs one continuation at a time. An event is the completion of the
  operation the animation loop awaits, a call of \<^verbatim>\<open>cancel\<close>, or the completion of
  the cleanup write of such a call; a schedule is a list of events.
\<close>

datatype event = LoopResumes completion | CancelCalled | CancelResumes completion

fun exec :: "event \<Rightarrow> state \<Rightarrow> state" where
  "exec (LoopResumes r) s = spinInternal_resume r s"
| "exec CancelCalled s = cancel_call s"
| "exec (CancelResumes r) s = snd (cancel_resume r s)"

fun run :: "event list \<Rightarrow> state \<Rightarrow> state" where
  "run [] s = s"
| "run (ev # evs) s = run evs (exec ev s)"

text \<open>
  Two notions for stating results. A whole call \<^verbatim>\<open>await cancel()\<close>: the call, the
  completions \<open>cs\<close> that reach the animation loop while the cleanup write is in flight,
  and the completion \<open>r\<close> of that write. And the frames among the writes the sink has
  received.
\<close>

definition await_cancel :: "completion list \<Rightarrow> completion \<Rightarrow> state \<Rightarrow> completion option \<times> state" where
  "await_cancel cs r s = cancel_resume r (run (map LoopResumes cs) (cancel_call s))"

definition frame_writes :: "state \<Rightarrow> bytes list" where
  "frame_writes s = filter (\<lambda>bs. bs \<in> set frames) (stderr (fst s))"

section \<open>The key press and the main program\<close>

text \<open>
  \<^verbatim>\<open>waitForKeypress\<close> in two parts. The call runs to the \<^verbatim>\<open>await\<close> of the read
  (\<open>None\<close>), unless \<^verbatim>\<open>setRaw(true)\<close> throws: then the \<^verbatim>\<open>finally\<close> block runs and
  the call ends with an exception (\<open>Some e\<close>). When the read completes, the
  \<^verbatim>\<open>finally\<close> block runs; an exception of the block replaces the one it interrupts.
\<close>

definition waitForKeypress_call :: "completion \<Rightarrow> completion \<Rightarrow> world \<Rightarrow> jsval option \<times> world" where
  "waitForKeypress_call r_on r_off w =
     (case Deno_stdin_setRaw True r_on w of
        (Inl e, w1) \<Rightarrow>
          (case Deno_stdin_setRaw False r_off w1 of
             (Inl e2, w2) \<Rightarrow> (Some e2, w2)
           | (Inr u, w2) \<Rightarrow> (Some e, w2))
      | (Inr u, w1) \<Rightarrow> (None, Deno_stdin_read w1))"

definition waitForKeypress_resume :: "completion \<Rightarrow> completion \<Rightarrow> world \<Rightarrow> completion \<times> world" where
  "waitForKeypress_resume r_key r_off w =
     (case Deno_stdin_setRaw False r_off w of
        (Inl e2, w1) \<Rightarrow> (Inl e2, w1)
      | (Inr u, w1) \<Rightarrow> (case r_key of Inl e \<Rightarrow> (Inl e, w1) | Inr v \<Rightarrow> (Inr (), w1)))"

text \<open>
  A whole call \<^verbatim>\<open>await waitForKeypress()\<close>; nothing else in the program touches the
  input stream while the read is pending.
\<close>

definition waitForKeypress :: "completion \<Rightarrow> completion \<Rightarrow> completion \<Rightarrow> world \<Rightarrow> completion \<times> world" where
  "waitForKeypress r_on r_key r_off w =
     (case waitForKeypress_call r_on r_off w of
        (Some e, w1) \<Rightarrow> (Inl e, w1)
      | (None, w1) \<Rightarrow> waitForKeypress_resume r_key r_off w1)"

text \<open>
  What the environment does during a run of \<^verbatim>\<open>main\<close>: how each operation of
  \<^verbatim>\<open>main\<close> and \<^verbatim>\<open>waitForKeypress\<close> completes, which completions the animation loop
  receives while the key is awaited, and the events that follow the call of
  \<^verbatim>\<open>cancel\<close>.
\<close>

record main_env =
  working_written :: completion
  raw_main :: completion
  raw_on :: completion
  before_key :: "completion list"
  key_read :: completion
  raw_off :: completion
  after_cancel :: "event list"

text \<open>
  How far a piece of the program has come: it has finished with a result, the process
  was ended by the host because a promise was rejected that nothing handles (Deno ends
  the process on an unhandled rejection, and no \<^verbatim>\<open>finally\<close> block runs then), or it
  still awaits.
\<close>

datatype 'a progress = Finished 'a | Unhandled jsval | Awaiting

text \<open>
  \<^verbatim>\<open>main\<close> calls \<^verbatim>\<open>cancel()\<close> and neither awaits nor catches the promise it
  returns. When the second part of \<^verbatim>\<open>cancel\<close> ends with an exception, that promise
  is rejected and the rejection is unhandled.
\<close>

definition cancel_rejection :: "event \<Rightarrow> state \<Rightarrow> jsval option" where
  "cancel_rejection ev s =
     (case ev of
        LoopResumes r \<Rightarrow> None
      | CancelCalled \<Rightarrow> None
      | CancelResumes r \<Rightarrow>
          (case fst (cancel_resume r s) of
             None \<Rightarrow> None
           | Some (Inl e) \<Rightarrow> Some e
           | Some (Inr u) \<Rightarrow> None))"

text \<open>
  \<^verbatim>\<open>await done\<close>: \<^verbatim>\<open>main\<close> continues as soon as the promise is settled, before any
  further event; while it is pending the events of the schedule take place, and an
  unhandled rejection among them ends the process.
\<close>

fun await_done :: "event list \<Rightarrow> state \<Rightarrow> (jsval + jsval) progress \<times> state" where
  "await_done [] s =
     (case await_now (promise (spin_done (snd s))) of
        Some outcome \<Rightarrow> (Finished outcome, s)
      | None \<Rightarrow> (Awaiting, s))"
| "await_done (ev # evs) s =
     (case await_now (promise (spin_done (snd s))) of
        Some outcome \<Rightarrow> (Finished outcome, s)
      | None \<Rightarrow>
          (case cancel_rejection ev s of
             Some e \<Rightarrow> (Unhandled e, exec ev s)
           | None \<Rightarrow> await_done evs (exec ev s)))"

definition ascii :: "string \<Rightarrow> jsstring" where
  "ascii cs = map of_char cs"

text \<open>
  The \<^verbatim>\<open>try\<close> block of \<^verbatim>\<open>main\<close>. It is left by an exception (\<open>Finished (Inl e)\<close>)
  or at its end (\<open>Finished (Inr ())\<close>), or the process ends inside it, or it still
  awaits \<^verbatim>\<open>done\<close>; the spinner is returned once \<^verbatim>\<open>spin\<close> has created it.
  \<^verbatim>\<open>cancel()\<close> is called and not awaited: its second part is one of the events that
  follow.
\<close>

definition main_try :: "main_env \<Rightarrow> world \<Rightarrow> completion progress \<times> world \<times> spinner option" where
  "main_try env w =
     (case Deno_stdin_setRaw True (raw_main env) w of
        (Inl e, w1) \<Rightarrow> (Finished (Inl e), w1, None)
      | (Inr u, w1) \<Rightarrow>
          (case spin (Some 500) w1 of
             (w2, sp) \<Rightarrow>
               (case waitForKeypress_call (raw_on env) (raw_off env) w2 of
                  (Some e, w3) \<Rightarrow> (Finished (Inl e), w3, Some sp)
                | (None, w3) \<Rightarrow>
                    (case run (map LoopResumes (before_key env)) (w3, sp) of
                       (w4, sp1) \<Rightarrow>
                         (case waitForKeypress_resume (key_read env) (raw_off env) w4 of
                            (Inl e, w5) \<Rightarrow> (Finished (Inl e), w5, Some sp1)
                          | (Inr u, w5) \<Rightarrow>
                              (case await_done (after_cancel env) (cancel_call (w5, sp1)) of
                                 (Awaiting, (w6, sp2)) \<Rightarrow> (Awaiting, w6, Some sp2)
                               | (Unhandled e, (w6, sp2)) \<Rightarrow> (Unhandled e, w6, Some sp2)
                               | (Finished (Inl e), (w6, sp2)) \<Rightarrow>
                                   (Finished (Inl e), w6, Some sp2)
                               | (Finished (Inr v), (w6, sp2)) \<Rightarrow>
                                   (Finished (Inr ()), w6, Some sp2)))))))"

text \<open>
  \<^verbatim>\<open>main\<close>: the first write is awaited outside the \<^verbatim>\<open>try\<close> statement; the
  \<^verbatim>\<open>finally\<close> block issues the show-cursor write when the \<^verbatim>\<open>try\<close> block is left,
  and \<^verbatim>\<open>console.log("Done!")\<close> follows when it was left at its end. When the process
  ends inside the \<^verbatim>\<open>try\<close> block, nothing more runs.
\<close>

definition main :: "main_env \<Rightarrow> world \<Rightarrow> completion progress \<times> world \<times> spinner option" where
  "main env w =
     (let w0 = Deno_stderr_write (TextEncoder_encode (ascii ''Working... '')) w
      in (case working_written env of
            Inl e \<Rightarrow> (Finished (Inl e), w0, None)
          | Inr u \<Rightarrow>
              (case main_try env w0 of
                 (Awaiting, w1, sp) \<Rightarrow> (Awaiting, w1, sp)
               | (Unhandled e, w1, sp) \<Rightarrow> (Unhandled e, w1, sp)
               | (Finished (Inl e), w1, sp) \<Rightarrow>
                   (Finished (Inl e),
                    Deno_stderr_write (TextEncoder_encode ANSI_CURSOR_SHOW) w1, sp)
               | (Finished (Inr v), w1, sp) \<Rightarrow>
                   (Finished (Inr ()),
                    console_log ''Done!''
                      (Deno_stderr_write (TextEncoder_encode ANSI_CURSOR_SHOW) w1),
                    sp))))"

text \<open>
  A run in which every operation succeeds: the hide-cursor write completes, then the key
  is pressed, and the cleanup write of \<^verbatim>\<open>cancel\<close> completes.
\<close>

definition env_key_pressed :: main_env where
  "env_key_pressed =
     \<lparr>working_written = Inr (), raw_main = Inr (), raw_on = Inr (), before_key = [Inr ()],
      key_read = Inr (), raw_off = Inr (), after_cancel = [CancelResumes (Inr ())]\<rparr>"

text \<open>The same run, except that the read of the key fails.\<close>

definition env_read_fails :: main_env where
  "env_read_fails = env_key_pressed\<lparr>key_read := Inl (Error ''read failed'')\<rparr>"

text \<open>
  The same run, except that the cleanup write of \<^verbatim>\<open>cancel\<close> fails (the stream was
  closed after the first frame).
\<close>

definition env_cleanup_fails :: main_env where
  "env_cleanup_fails =
     env_key_pressed\<lparr>after_cancel := [CancelResumes (Inl (Error ''write failed''))]\<rparr>"

section \<open>The frame source: results\<close>

lemma Array_from_total:
  "Array_from (\<lambda>i. Inr (g i)) is = Inr (map g is)"
  by (induction "is") simp_all

lemma Array_from_cong:
  "(\<And>i. i \<in> set is \<Longrightarrow> f i = h i) \<Longrightarrow> Array_from f is = Array_from h is"
  by (induction "is") (simp_all split: sum.splits)

lemma ALL_BRAILLE_CHARS_eq:
  "ALL_BRAILLE_CHARS = Inr (map (\<lambda>i. [0x2800 + i]) [0 ..< 256])"
proof -
  have "Array_from (\<lambda>i. String_fromCodePoint (0x2800 + i)) [0 ..< 256]
        = Array_from (\<lambda>i. Inr [0x2800 + i]) [0 ..< 256]"
    by (rule Array_from_cong) (simp add: String_fromCodePoint_def)
  then show ?thesis
    by (simp add: ALL_BRAILLE_CHARS_def Array_from_total)
qed

lemma braille_div_64: "((0x2800::nat) + i) div 0x40 = 160 + i div 64"
proof -
  have "(0x2800::nat) = 160 * 64" by simp
  then show ?thesis by (metis div_mult_self3 zero_neq_numeral)
qed

lemma braille_mod_64: "((0x2800::nat) + i) mod 0x40 = i mod 64"
proof -
  have "(0x2800::nat) = 160 * 64" by simp
  then show ?thesis by (metis mod_mult_self4 mult.commute)
qed

lemma braille_middle_bits:
  assumes "i < 256"
  shows "(((0x2800::nat) + i) div 0x40) mod 0x40 = 32 + i div 64"
proof -
  from assms have k: "i div 64 < 4" by simp
  have "(160 + i div 64) mod 64 = (2 * 64 + (32 + i div 64)) mod 64" by simp
  also have "\<dots> = (32 + i div 64) mod 64" by (rule mod_mult_self3)
  also have "\<dots> = 32 + i div 64" using k by simp
  finally show ?thesis unfolding braille_div_64 .
qed

lemma utf8_braille:
  assumes "i < 256"
  shows "utf8 (0x2800 + i) = [0xE2, 0xA0 + i div 64, 0x80 + i mod 64]"
proof -
  have hi: "((0x2800::nat) + i) div 0x1000 = 2" using assms by simp
  have "\<not> (0x2800 + i < 0x80)" "\<not> (0x2800 + i < 0x800)" "0x2800 + i < 0x10000"
    using assms by simp_all
  then show ?thesis
    unfolding utf8_def by (simp add: hi braille_middle_bits [OF assms] braille_mod_64)
qed

lemma scalar_values_braille:
  assumes "i < 256"
  shows "scalar_values [0x1B, 0x5B, 0x31, 0x44, 0x2800 + i] = [0x1B, 0x5B, 0x31, 0x44, 0x2800 + i]"
  using assms by (simp add: is_high_surrogate_def is_low_surrogate_def)

lemma encode_braille:
  assumes "i < 256"
  shows "encode [0x2800 + i] = [0x1B, 0x5B, 0x31, 0x44, 0xE2, 0xA0 + i div 64, 0x80 + i mod 64]"
proof -
  have "encode [0x2800 + i] = concat (map utf8 [0x1B, 0x5B, 0x31, 0x44, 0x2800 + i])"
    using scalar_values_braille [OF assms]
    by (simp add: encode_def join_empty_def ANSI_CURSOR_LEFT_def TextEncoder_encode_def)
  also have "\<dots> = utf8 0x1B @ utf8 0x5B @ utf8 0x31 @ utf8 0x44 @ utf8 (0x2800 + i)"
    by simp
  also have "\<dots> = [0x1B, 0x5B, 0x31, 0x44] @ utf8 (0x2800 + i)"
    by (simp add: utf8_def)
  finally show ?thesis by (simp add: utf8_braille [OF assms])
qed

lemma TextEncoder_left: "TextEncoder_encode ANSI_CURSOR_LEFT = [0x1B, 0x5B, 0x31, 0x44]"
  by (simp add: TextEncoder_encode_def ANSI_CURSOR_LEFT_def is_high_surrogate_def
      is_low_surrogate_def utf8_def)

lemma TextEncoder_braille:
  assumes "i < 256"
  shows "TextEncoder_encode [0x2800 + i] = [0xE2, 0xA0 + i div 64, 0x80 + i mod 64]"
  using assms
  by (simp add: TextEncoder_encode_def is_high_surrogate_def is_low_surrogate_def utf8_braille)

lemma ALL_BRAILLE_FRAMES_eq:
  "ALL_BRAILLE_FRAMES =
     Inr (map (\<lambda>i. [0x1B, 0x5B, 0x31, 0x44, 0xE2, 0xA0 + i div 64, 0x80 + i mod 64]) [0 ..< 256])"
  unfolding ALL_BRAILLE_FRAMES_def ALL_BRAILLE_CHARS_eq
  by (simp add: encode_braille del: upt.simps)

lemma frames_eq:
  "frames = map (\<lambda>i. [0x1B, 0x5B, 0x31, 0x44, 0xE2, 0xA0 + i div 64, 0x80 + i mod 64]) [0 ..< 256]"
  by (simp add: frames_def ALL_BRAILLE_FRAMES_eq del: upt.simps)

text \<open>
  Claim C7. The frame source holds exactly 256 frames, one for each code point from
  \<open>U+2800\<close> to \<open>U+28FF\<close> in ascending order; each frame is the encoded cursor-left
  sequence \<open>ESC [ 1 D\<close> followed by the UTF-8 encoding of its glyph, that is the seven
  bytes \<open>1B 5B 31 44 E2 (A0 + i div 64) (80 + i mod 64)\<close> for the glyph of index \<open>i\<close>.
\<close>

theorem frame_source_braille:
  "ALL_BRAILLE_CHARS = Inr (map (\<lambda>i. [0x2800 + i]) [0 ..< 256])
   \<and> ALL_BRAILLE_FRAMES =
       Inr (map (\<lambda>i. TextEncoder_encode ANSI_CURSOR_LEFT @ TextEncoder_encode [0x2800 + i])
              [0 ..< 256])
   \<and> ALL_BRAILLE_FRAMES =
       Inr (map (\<lambda>i. [0x1B, 0x5B, 0x31, 0x44, 0xE2, 0xA0 + i div 64, 0x80 + i mod 64])
              [0 ..< 256])
   \<and> TextEncoder_encode ANSI_CURSOR_LEFT = [0x1B, 0x5B, 0x31, 0x44]
   \<and> length frames = 256"
proof -
  have "map (\<lambda>i. TextEncoder_encode ANSI_CURSOR_LEFT @ TextEncoder_encode [0x2800 + i]) [0 ..< 256]
        = map (\<lambda>i. [0x1B, 0x5B, 0x31, 0x44, 0xE2, 0xA0 + i div 64, 0x80 + i mod 64]) [0 ..< 256]"
    by (rule map_cong) (simp_all add: TextEncoder_left TextEncoder_braille)
  moreover have "length frames = 256"
    unfolding frames_eq by (simp del: upt.simps)
  ultimately show ?thesis
    by (simp only: ALL_BRAILLE_CHARS_eq ALL_BRAILLE_FRAMES_eq TextEncoder_left simp_thms)
qed

section \<open>The encoded control sequences\<close>

lemmas platform_defs =
  Deno_stderr_write_def sleep_def Deno_stdin_setRaw_def Deno_stdin_read_def console_log_def

lemmas deferred_defs =
  Deferred_new_def resolve_def reject_def isResolved_def isRejected_def isDone_def
  promise_resolve_def promise_reject_def await_now_def

lemmas spinner_defs = then_handlers_def internal_returns_def internal_throws_def

lemma hide_bytes: "TextEncoder_encode ANSI_CURSOR_HIDE = [0x1B, 0x5B, 0x3F, 0x32, 0x35, 0x6C]"
  by (simp add: TextEncoder_encode_def ANSI_CURSOR_HIDE_def is_high_surrogate_def
      is_low_surrogate_def utf8_def)

lemma show_bytes: "TextEncoder_encode ANSI_CURSOR_SHOW = [0x1B, 0x5B, 0x3F, 0x32, 0x35, 0x68]"
  by (simp add: TextEncoder_encode_def ANSI_CURSOR_SHOW_def is_high_surrogate_def
      is_low_surrogate_def utf8_def)

lemma cleanup_bytes:
  "cleanup_sequence =
     [0x1B, 0x5B, 0x31, 0x44, 0x20, 0x1B, 0x5B, 0x31, 0x44, 0x1B, 0x5B, 0x3F, 0x32, 0x35, 0x68]"
  by (simp add: cleanup_sequence_def join_empty_def TextEncoder_encode_def ANSI_CURSOR_LEFT_def
      ANSI_CURSOR_SHOW_def is_high_surrogate_def is_low_surrogate_def utf8_def)

lemma working_bytes:
  "TextEncoder_encode (ascii ''Working... '')
     = [0x57, 0x6F, 0x72, 0x6B, 0x69, 0x6E, 0x67, 0x2E, 0x2E, 0x2E, 0x20]"
  by (simp add: TextEncoder_encode_def ascii_def is_high_surrogate_def is_low_surrogate_def
      utf8_def)

lemma frames_Cons: "frames = [0x1B, 0x5B, 0x31, 0x44, 0xE2, 0xA0, 0x80] # tl frames"
proof -
  have "[0 ..< 256] = 0 # [1 ..< 256]" by (simp add: upt_conv_Cons)
  then show ?thesis unfolding frames_eq by (simp del: upt.simps)
qed

lemma frames_nonempty: "frames \<noteq> []"
  by (subst frames_Cons) simp

lemma hd_frames: "hd frames = [0x1B, 0x5B, 0x31, 0x44, 0xE2, 0xA0, 0x80]"
  by (subst frames_Cons) simp

lemma frame_length: "f \<in> set frames \<Longrightarrow> length f = 7"
  unfolding frames_eq by auto

lemma cleanup_not_frame: "cleanup_sequence \<notin> set frames"
  using frame_length [of cleanup_sequence] by (auto simp: cleanup_bytes)

lemma hide_not_frame: "TextEncoder_encode ANSI_CURSOR_HIDE \<noteq> hd frames"
  by (simp add: hide_bytes hd_frames)

lemma hide_not_cleanup: "TextEncoder_encode ANSI_CURSOR_HIDE \<noteq> cleanup_sequence"
  by (simp add: hide_bytes cleanup_bytes)

section \<open>The completion signal: results\<close>

lemma promise_settled_resolve: "p \<noteq> Pending \<Longrightarrow> promise_resolve v p = p"
  by (cases p) (simp_all add: promise_resolve_def)

lemma promise_settled_reject: "p \<noteq> Pending \<Longrightarrow> promise_reject e p = p"
  by (cases p) (simp_all add: promise_reject_def)

lemma promise_resolve_not_pending: "promise_resolve v p \<noteq> Pending"
  by (cases p) (simp_all add: promise_resolve_def)

lemma promise_reject_not_pending: "promise_reject e p \<noteq> Pending"
  by (cases p) (simp_all add: promise_reject_def)

text \<open>
  The promise inside a \<^verbatim>\<open>Deferred\<close> does settle at most once: the first call of
  \<^verbatim>\<open>resolve\<close> or \<^verbatim>\<open>reject\<close> decides it, and no later call changes it.
\<close>

lemma deferred_promise_settles_once:
  "promise (resolve v Deferred_new) = Fulfilled v"
  "promise (reject e Deferred_new) = Rejected e"
  "promise d \<noteq> Pending \<Longrightarrow> promise (resolve v d) = promise d"
  "promise d \<noteq> Pending \<Longrightarrow> promise (reject e d) = promise d"
  by (simp_all add: resolve_def reject_def Deferred_new_def promise_settled_resolve
      promise_settled_reject) (simp_all add: promise_resolve_def promise_reject_def)

text \<open>
  Claim C2 says that the completion signal settles at most once, that every later
  attempt to fulfil or reject it leaves the observable state unchanged, and that it is
  never observed as both fulfilled and rejected. The flags of \<^verbatim>\<open>Deferred\<close> do
  otherwise: each setter raises its flag without looking at the state. After
  \<^verbatim>\<open>resolve(undefined)\<close> and then \<^verbatim>\<open>reject(new Error("late"))\<close> on a new
  \<^verbatim>\<open>Deferred\<close>, the promise is still fulfilled, and \<^verbatim>\<open>isResolved\<close> and
  \<^verbatim>\<open>isRejected\<close> are both true, although \<^verbatim>\<open>isRejected\<close> was false before the
  second call. The same happens in the other order, on a rejected promise.
\<close>

theorem deferred_flags_both_true:
  "isResolved (reject (Error ''late'') (resolve Undefined Deferred_new))
   \<and> isRejected (reject (Error ''late'') (resolve Undefined Deferred_new))
   \<and> promise (reject (Error ''late'') (resolve Undefined Deferred_new)) = Fulfilled Undefined
   \<and> \<not> isRejected (resolve Undefined Deferred_new)
   \<and> isResolved (resolve Undefined (reject (Error ''early'') Deferred_new))
   \<and> isRejected (resolve Undefined (reject (Error ''early'') Deferred_new))
   \<and> promise (resolve Undefined (reject (Error ''early'') Deferred_new))
       = Rejected (Error ''early'')"
  by (simp add: deferred_defs)

section \<open>Steps of the animation loop and of the controller\<close>

lemma while_loop_cases:
  "while_loop (w, sp) =
     (if cancelled sp then (w, internal_returns sp)
      else (Deno_stderr_write (hd frames) w, sp\<lparr>internalPromise := AwaitFrame 0\<rparr>))"
  by (simp add: list.case_eq_if frames_nonempty)

declare while_loop.simps [simp del]

lemma spin_fst [simp]: "fst (spin a w) = Deno_stderr_write (TextEncoder_encode ANSI_CURSOR_HIDE) w"
  by (simp add: spin_def)

lemma spin_snd [simp]:
  "snd (spin a w) = \<lparr>ms = (case a of None \<Rightarrow> 500 | Some m \<Rightarrow> m), cancelled = False,
       spin_done = Deferred_new, internalPromise = AwaitHide\<rparr>"
  by (simp add: spin_def)

lemma cancel_call_snd [simp]: "snd (cancel_call s) = (snd s)\<lparr>cancelled := True\<rparr>"
  by (cases s) simp

lemma cancel_call_fst [simp]: "fst (cancel_call s) = Deno_stderr_write cleanup_sequence (fst s)"
  by (cases s) simp

lemma cancel_resume_ok:
  "cancel_resume (Inr ()) s =
     (case promise_resolve Undefined (promise (spin_done (snd s))) of
        Pending \<Rightarrow> None | Fulfilled v \<Rightarrow> Some (Inr ()) | Rejected e \<Rightarrow> Some (Inl e),
      (fst s, (snd s)\<lparr>spin_done := resolve Undefined (spin_done (snd s))\<rparr>))"
  by (cases s) (simp add: Let_def resolve_def await_now_def split: promise_state.splits)

lemma cancel_resume_failed: "cancel_resume (Inl e) s = (Some (Inl e), s)"
  by (cases s) simp

declare cancel_resume.simps [simp del]

lemma cancel_resume_fst [simp]: "fst (snd (cancel_resume r s)) = fst s"
  by (cases r) (simp_all add: cancel_resume_failed cancel_resume_ok)

lemma cancel_resume_cancelled [simp]:
  "cancelled (snd (snd (cancel_resume r s))) = cancelled (snd s)"
  by (cases r) (simp_all add: cancel_resume_failed cancel_resume_ok)

lemma cancel_resume_ms [simp]: "ms (snd (snd (cancel_resume r s))) = ms (snd s)"
  by (cases r) (simp_all add: cancel_resume_failed cancel_resume_ok)

lemma resume_cancelled [simp]:
  "cancelled (snd (spinInternal_resume r s)) = cancelled (snd s)"
  by (cases s) (simp add: while_loop_cases spinner_defs split: internal_state.splits sum.splits)

lemma resume_ms [simp]: "ms (snd (spinInternal_resume r s)) = ms (snd s)"
  by (cases s) (simp add: while_loop_cases spinner_defs split: internal_state.splits sum.splits)

lemma exec_ms [simp]: "ms (snd (exec ev s)) = ms (snd s)"
  by (cases ev) simp_all

lemma exec_cancelled:
  "cancelled (snd (exec ev s)) = (cancelled (snd s) \<or> ev = CancelCalled)"
  by (cases ev) simp_all

lemma run_cancelled: "cancelled (snd s) \<Longrightarrow> cancelled (snd (run evs s))"
  by (induction evs arbitrary: s) (simp_all add: exec_cancelled)

lemma run_loop_cancelled [simp]:
  "cancelled (snd (run (map LoopResumes cs) s)) = cancelled (snd s)"
  by (induction cs arbitrary: s) simp_all

text \<open>Once the flag is set, a continuation of the animation loop writes nothing.\<close>

lemma resume_silent:
  "cancelled (snd s) \<Longrightarrow> stderr (fst (spinInternal_resume r s)) = stderr (fst s)"
  by (cases s)
    (simp add: while_loop_cases spinner_defs platform_defs split: internal_state.splits sum.splits)

lemma run_loop_silent:
  "cancelled (snd s) \<Longrightarrow> stderr (fst (run (map LoopResumes cs) s)) = stderr (fst s)"
  by (induction cs arbitrary: s) (simp_all add: resume_silent)

lemma exec_frame_writes:
  assumes "cancelled (snd s)"
  shows "frame_writes (exec ev s) = frame_writes s"
proof (cases ev)
  case (LoopResumes r)
  with assms show ?thesis by (simp add: frame_writes_def resume_silent)
next
  case CancelCalled
  then show ?thesis by (simp add: frame_writes_def platform_defs cleanup_not_frame)
next
  case (CancelResumes r)
  then show ?thesis by (simp add: frame_writes_def)
qed

lemma run_frame_writes:
  "cancelled (snd s) \<Longrightarrow> frame_writes (run evs s) = frame_writes s"
  by (induction evs arbitrary: s) (simp_all add: exec_frame_writes exec_cancelled)

text \<open>A settled completion signal stays as it is, whatever the animation loop does.\<close>

lemma resume_done_settled:
  "promise (spin_done (snd s)) \<noteq> Pending \<Longrightarrow>
   promise (spin_done (snd (spinInternal_resume r s))) = promise (spin_done (snd s))"
  by (cases s)
    (simp add: while_loop_cases spinner_defs resolve_def promise_settled_resolve
      split: internal_state.splits sum.splits)

lemma run_loop_done_settled:
  "promise (spin_done (snd s)) \<noteq> Pending \<Longrightarrow>
   promise (spin_done (snd (run (map LoopResumes cs) s))) = promise (spin_done (snd s))"
  by (induction cs arbitrary: s) (simp_all add: resume_done_settled)

text \<open>After its exception the animation loop takes no further step.\<close>

lemma resume_after_throw:
  "internalPromise (snd s) = Threw e \<Longrightarrow> spinInternal_resume r s = s"
  by (cases s) simp

lemma run_loop_after_throw:
  "internalPromise (snd s) = Threw e \<Longrightarrow> run (map LoopResumes cs) s = s"
  by (induction cs) (simp_all add: resume_after_throw)

section \<open>The cancelled flag\<close>

text \<open>
  Reaching its loops with the flag set, \<^verbatim>\<open>spinInternal\<close> leaves them at once and
  returns.
\<close>

lemma resume_aborts:
  "cancelled (snd s) \<Longrightarrow> internalPromise (snd s) = AwaitHide \<Longrightarrow>
   internalPromise (snd (spinInternal_resume (Inr ()) s)) = Returned"
  by (cases s) (simp add: while_loop_cases spinner_defs)

text \<open>
  Claim C5. The animation loop tests the cancelled flag before it writes a frame, so a
  continuation of the loop that writes to the sink started with the flag unset, and once
  the flag is set no schedule of events adds a frame to the sink. The flag is changed by
  a call of \<^verbatim>\<open>cancel\<close> only, from false to true, and once true it stays true along
  every schedule. A loop that reaches its test with the flag set leaves its loops at once.
\<close>

theorem cancelled_flag_discipline:
  "(cancelled (snd s) \<longrightarrow> cancelled (snd (run evs s)))
   \<and> (cancelled (snd (exec ev s)) \<noteq> cancelled (snd s) \<longrightarrow>
        ev = CancelCalled \<and> \<not> cancelled (snd s))
   \<and> (stderr (fst (exec (LoopResumes r) s)) \<noteq> stderr (fst s) \<longrightarrow> \<not> cancelled (snd s))
   \<and> (cancelled (snd s) \<longrightarrow> frame_writes (run evs s) = frame_writes s)
   \<and> (cancelled (snd s) \<and> internalPromise (snd s) = AwaitHide \<longrightarrow>
        internalPromise (snd (exec (LoopResumes (Inr ())) s)) = Returned)"
  using run_cancelled [of s evs] exec_cancelled [of ev s] resume_silent [of s r]
    run_frame_writes [of s evs] resume_aborts [of s]
  by auto

text \<open>
  The theorem at work: a new spinner has the flag unset and its first continuation
  writes a frame; a call of \<^verbatim>\<open>cancel\<close> sets the flag, and the events that follow
  keep it set and write no frame.
\<close>

theorem cancelled_flag_discipline_witness:
  "\<not> cancelled (snd (spin None world0))
   \<and> cancelled (snd (exec CancelCalled (spin None world0)))
   \<and> stderr (fst (exec (LoopResumes (Inr ())) (spin None world0)))
       \<noteq> stderr (fst (spin None world0))
   \<and> cancelled (snd (run [LoopResumes (Inr ()), CancelResumes (Inr ()), LoopResumes (Inr ())]
        (cancel_call (spin None world0))))
   \<and> frame_writes (run [LoopResumes (Inr ()), CancelResumes (Inr ()), LoopResumes (Inr ())]
        (cancel_call (spin None world0))) = []
   \<and> internalPromise (snd (exec (LoopResumes (Inr ())) (cancel_call (spin None world0))))
       = Returned"
proof -
  have f: "frame_writes (cancel_call (spin None world0)) = []"
    using cleanup_not_frame frame_length [of "TextEncoder_encode ANSI_CURSOR_HIDE"]
    by (auto simp: frame_writes_def platform_defs world0_def hide_bytes)
  have w: "stderr (fst (exec (LoopResumes (Inr ())) (spin None world0)))
      \<noteq> stderr (fst (spin None world0))"
    by (simp add: spin_def while_loop_cases platform_defs)
  show ?thesis
    using cancelled_flag_discipline [of "cancel_call (spin None world0)"
        "[LoopResumes (Inr ()), CancelResumes (Inr ()), LoopResumes (Inr ())]" CancelCalled "Inr ()"]
      cancelled_flag_discipline [of "spin None world0" "[]" CancelCalled "Inr ()"] f w
    by simp
qed

section \<open>Failures of the animation loop\<close>

text \<open>
  No schedule of events rejects the completion signal of a spinner: \<^verbatim>\<open>done.reject\<close>
  is never called.
\<close>

lemma exec_never_rejects:
  assumes "promise (spin_done (snd s)) \<noteq> Rejected e"
  shows "promise (spin_done (snd (exec ev s))) \<noteq> Rejected e"
proof (cases ev)
  case (LoopResumes r)
  with assms show ?thesis
    by (cases s; cases "promise (spin_done (snd s))")
      (simp_all add: while_loop_cases spinner_defs resolve_def promise_resolve_def
        split: internal_state.splits sum.splits)
next
  case CancelCalled
  with assms show ?thesis by simp
next
  case (CancelResumes r)
  with assms show ?thesis
    by (cases r; cases "promise (spin_done (snd s))")
      (simp_all add: cancel_resume_ok cancel_resume_failed resolve_def promise_resolve_def)
qed

lemma done_never_rejected: "promise (spin_done (snd (run evs (spin a w)))) \<noteq> Rejected e"
proof -
  have "promise (spin_done (snd s)) \<noteq> Rejected e \<Longrightarrow>
        promise (spin_done (snd (run evs s))) \<noteq> Rejected e" for s
    by (induction evs arbitrary: s) (simp_all add: exec_never_rejects)
  then show ?thesis by (simp add: Deferred_new_def)
qed

text \<open>
  Claim C1 says that a failure of the animation loop, before \<^verbatim>\<open>cancel\<close> was ever
  called, rejects the completion signal with that failure, so that the returned
  \<^verbatim>\<open>done\<close> yields failure. The code does otherwise: both handlers attached to
  \<^verbatim>\<open>internalPromise\<close> are \<^verbatim>\<open>done.resolve\<close>. When the hide-cursor write succeeds
  and the write of the first frame fails, the loop ends with that exception, the signal
  is fulfilled with the error as its value, \<^verbatim>\<open>isRejected\<close> is false, and an
  \<^verbatim>\<open>await\<close> of \<^verbatim>\<open>done\<close> continues normally.
\<close>

theorem loop_failure_fulfils_done:
  "promise (spin_done (snd (run [LoopResumes (Inr ()), LoopResumes (Inl (Error ''write failed''))]
       (spin None world0)))) = Fulfilled (Error ''write failed'')
   \<and> internalPromise (snd (run [LoopResumes (Inr ()), LoopResumes (Inl (Error ''write failed''))]
       (spin None world0))) = Threw (Error ''write failed'')
   \<and> \<not> isRejected (spin_done (snd (run
       [LoopResumes (Inr ()), LoopResumes (Inl (Error ''write failed''))] (spin None world0))))
   \<and> await_now (promise (spin_done (snd (run
       [LoopResumes (Inr ()), LoopResumes (Inl (Error ''write failed''))] (spin None world0)))))
     = Some (Inr (Error ''write failed''))"
  by (simp add: spin_def while_loop_cases spinner_defs deferred_defs platform_defs)

text \<open>
  Claim C4 says that without cancellation the loop writes each of the 256 frames once,
  in order, and then starts the cycle again. The code does otherwise: the body of the
  \<^verbatim>\<open>for\<close> loop ends in \<^verbatim>\<open>throw new Error("test")\<close>. With every operation
  succeeding, the third completion (the first timer) ends the loop with that exception,
  and whatever completions follow, the sink has received the hide-cursor sequence and
  the frame of \<open>U+2800\<close> only.
\<close>

theorem loop_throws_after_first_frame:
  "internalPromise (snd (run (map LoopResumes [Inr (), Inr (), Inr ()]) (spin a world0)))
     = Threw (Error ''test'')
   \<and> stderr (fst (run (map LoopResumes (Inr () # Inr () # Inr () # cs)) (spin a world0)))
     = [[0x1B, 0x5B, 0x3F, 0x32, 0x35, 0x6C], [0x1B, 0x5B, 0x31, 0x44, 0xE2, 0xA0, 0x80]]"
proof -
  let ?s = "run (map LoopResumes [Inr (), Inr (), Inr ()]) (spin a world0)"
  have t: "internalPromise (snd ?s) = Threw (Error ''test'')"
    by (simp add: spin_def while_loop_cases spinner_defs platform_defs)
  have w: "stderr (fst ?s)
      = [[0x1B, 0x5B, 0x3F, 0x32, 0x35, 0x6C], [0x1B, 0x5B, 0x31, 0x44, 0xE2, 0xA0, 0x80]]"
    by (simp add: spin_def while_loop_cases spinner_defs platform_defs world0_def hide_bytes
        hd_frames)
  have "run (map LoopResumes (Inr () # Inr () # Inr () # cs)) (spin a world0)
        = run (map LoopResumes cs) ?s"
    by simp
  also have "\<dots> = ?s" using t by (rule run_loop_after_throw)
  finally show ?thesis using t w by simp
qed

section \<open>The controller: cancel\<close>

lemma await_cancel_ok:
  "await_cancel cs (Inr ()) s =
     (case promise_resolve Undefined
             (promise (spin_done (snd (run (map LoopResumes cs) (cancel_call s))))) of
        Pending \<Rightarrow> None | Fulfilled v \<Rightarrow> Some (Inr ()) | Rejected e \<Rightarrow> Some (Inl e),
      (fst (run (map LoopResumes cs) (cancel_call s)),
       (snd (run (map LoopResumes cs) (cancel_call s)))
         \<lparr>spin_done :=
            resolve Undefined (spin_done (snd (run (map LoopResumes cs) (cancel_call s))))\<rparr>))"
  by (simp add: await_cancel_def cancel_resume_ok)

lemma run_append: "run (evs @ evs') s = run evs' (run evs s)"
  by (induction evs arbitrary: s) simp_all

text \<open>
  On a spinner made by \<^verbatim>\<open>spin\<close>, in whatever state the events have left it, a call
  of \<^verbatim>\<open>cancel\<close> whose cleanup write succeeds ends normally.
\<close>

lemma cancel_succeeds: "fst (await_cancel cs (Inr ()) (run evs (spin a w))) = Some (Inr ())"
proof -
  let ?s = "run (map LoopResumes cs) (cancel_call (run evs (spin a w)))"
  have "?s = run (evs @ CancelCalled # map LoopResumes cs) (spin a w)"
    by (simp add: run_append)
  then have nr: "promise (spin_done (snd ?s)) \<noteq> Rejected e" for e
    using done_never_rejected [of "evs @ CancelCalled # map LoopResumes cs" a w e] by simp
  show ?thesis
  proof (cases "promise (spin_done (snd ?s))")
    case Pending
    then show ?thesis by (simp add: await_cancel_ok promise_resolve_def)
  next
    case (Fulfilled v)
    then show ?thesis by (simp add: await_cancel_ok promise_resolve_def)
  next
    case (Rejected e)
    with nr show ?thesis by blast
  qed
qed

text \<open>
  Claim C6. A call of \<^verbatim>\<open>cancel\<close> first sets the cancelled flag and hands the sink
  the cleanup sequence \<open>ESC [ 1 D\<close>, space, \<open>ESC [ 1 D\<close>, \<open>ESC [ ? 2 5 h\<close>, leaving the
  completion signal as it was; if that write fails the call ends with the failure and
  the signal untouched. When the write has succeeded the call fulfils the signal (a
  pending signal becomes fulfilled, a settled one stays) and returns what the settled
  signal yields; it never returns while the signal is pending. Over the whole call the
  sink receives the cleanup sequence and nothing else, whatever the animation loop does
  meanwhile.
\<close>

theorem cancel_protocol:
  "cancelled (snd (cancel_call s))
   \<and> stderr (fst (cancel_call s)) = stderr (fst s) @
        [[0x1B, 0x5B, 0x31, 0x44, 0x20, 0x1B, 0x5B, 0x31, 0x44, 0x1B, 0x5B, 0x3F, 0x32, 0x35, 0x68]]
   \<and> spin_done (snd (cancel_call s)) = spin_done (snd s)
   \<and> cancel_resume (Inl e) (cancel_call s) = (Some (Inl e), cancel_call s)
   \<and> stderr (fst (snd (await_cancel cs (Inr ()) s))) = stderr (fst s) @
        [[0x1B, 0x5B, 0x31, 0x44, 0x20, 0x1B, 0x5B, 0x31, 0x44, 0x1B, 0x5B, 0x3F, 0x32, 0x35, 0x68]]
   \<and> cancelled (snd (snd (await_cancel cs (Inr ()) s)))
   \<and> isResolved (spin_done (snd (snd (await_cancel cs (Inr ()) s))))
   \<and> promise (spin_done (snd (snd (await_cancel [] (Inr ()) s))))
        = (if promise (spin_done (snd s)) = Pending then Fulfilled Undefined
           else promise (spin_done (snd s)))
   \<and> fst (await_cancel cs (Inr ()) s)
        = (case promise (spin_done (snd (snd (await_cancel cs (Inr ()) s)))) of
             Pending \<Rightarrow> None | Fulfilled v \<Rightarrow> Some (Inr ()) | Rejected e \<Rightarrow> Some (Inl e))
   \<and> fst (await_cancel cs (Inr ()) s) \<noteq> None"
proof -
  let ?s1 = "cancel_call s"
  let ?s2 = "run (map LoopResumes cs) ?s1"
  have c1: "cancelled (snd ?s1)" by simp
  have w1: "stderr (fst ?s1) = stderr (fst s) @ [cleanup_sequence]"
    by (simp add: platform_defs)
  have d1: "spin_done (snd ?s1) = spin_done (snd s)" by simp
  have w2: "stderr (fst ?s2) = stderr (fst s) @ [cleanup_sequence]"
    using run_loop_silent [OF c1, of cs] w1 by simp
  have c2: "cancelled (snd ?s2)" by simp
  have np: "promise_resolve Undefined (promise (spin_done (snd ?s2))) \<noteq> Pending"
    by (rule promise_resolve_not_pending)
  have p0: "promise (spin_done (snd (snd (await_cancel [] (Inr ()) s))))
        = (if promise (spin_done (snd s)) = Pending then Fulfilled Undefined
           else promise (spin_done (snd s)))"
    by (simp add: await_cancel_def cancel_resume_ok resolve_def promise_resolve_def
        split: promise_state.splits)
  show ?thesis
    using c1 w1 d1 w2 c2 np p0
    by (simp add: await_cancel_def cancel_resume_ok cancel_resume_failed cleanup_bytes
        resolve_def isResolved_def split: promise_state.splits)
qed

text \<open>
  Claim C3 says that two calls of \<^verbatim>\<open>cancel\<close> in sequence yield the same outcome
  and that only the first emits the cleanup sequence. The code does otherwise:
  \<^verbatim>\<open>spin\<close> declares \<^verbatim>\<open>cancelledPromise\<close> and never uses it, and \<^verbatim>\<open>cancel\<close>
  keeps no memory of an earlier call. On a new spinner, two calls in sequence, both
  with a successful cleanup write, leave the sink with the hide-cursor sequence
  followed by the cleanup sequence twice.
\<close>

theorem cancel_twice_reemits_cleanup:
  "stderr (fst (snd (await_cancel [] (Inr ())
       (snd (await_cancel [] (Inr ()) (spin None world0))))))
     = [TextEncoder_encode ANSI_CURSOR_HIDE, cleanup_sequence, cleanup_sequence]
   \<and> count_list
        (stderr (fst (snd (await_cancel [] (Inr ())
           (snd (await_cancel [] (Inr ()) (spin None world0)))))))
        cleanup_sequence = 2"
  by (simp add: await_cancel_def cancel_resume_ok platform_defs world0_def hide_bytes
      cleanup_bytes)

text \<open>
  For the same reason the two outcomes can differ: when the cleanup write of the first
  call fails and that of the second succeeds, the first call ends with the failure and
  the second normally.
\<close>

lemma cancel_twice_outcomes_differ:
  "fst (await_cancel [] (Inl (Error ''write failed'')) (spin None world0))
     = Some (Inl (Error ''write failed''))
   \<and> fst (await_cancel [] (Inr ())
        (snd (await_cancel [] (Inl (Error ''write failed'')) (spin None world0))))
     = Some (Inr ())"
  by (simp add: await_cancel_def cancel_resume_ok cancel_resume_failed deferred_defs)

text \<open>
  What two calls in sequence do have in common when both cleanup writes succeed: the
  outcome, since a settled signal never changes. The sink receives the cleanup
  sequence twice and nothing else, whatever the animation loop does before, between
  and during the calls.
\<close>

lemma cancel_twice_when_writes_succeed:
  "fst (await_cancel cs3 (Inr ())
          (run (map LoopResumes cs2) (snd (await_cancel cs1 (Inr ()) s))))
     = fst (await_cancel cs1 (Inr ()) s)
   \<and> fst (await_cancel cs1 (Inr ()) s) \<noteq> None
   \<and> stderr (fst (snd (await_cancel cs3 (Inr ())
          (run (map LoopResumes cs2) (snd (await_cancel cs1 (Inr ()) s))))))
     = stderr (fst s) @ [cleanup_sequence, cleanup_sequence]"
proof -
  let ?a = "run (map LoopResumes cs1) (cancel_call s)"
  let ?s1 = "snd (await_cancel cs1 (Inr ()) s)"
  let ?b = "run (map LoopResumes cs2) ?s1"
  let ?c = "run (map LoopResumes cs3) (cancel_call ?b)"
  let ?p = "promise_resolve Undefined (promise (spin_done (snd ?a)))"
  have p1: "promise (spin_done (snd ?s1)) = ?p"
    by (simp add: await_cancel_ok resolve_def)
  have np: "?p \<noteq> Pending" by (rule promise_resolve_not_pending)
  have pb: "promise (spin_done (snd ?b)) = ?p"
    using run_loop_done_settled [of ?s1 cs2] p1 np by simp
  have pc: "promise (spin_done (snd ?c)) = ?p"
    using run_loop_done_settled [of "cancel_call ?b" cs3] pb np by simp
  have o2: "fst (await_cancel cs3 (Inr ()) ?b) = fst (await_cancel cs1 (Inr ()) s)"
    using np by (simp add: await_cancel_ok [of cs3] pc promise_settled_resolve)
      (simp add: await_cancel_ok)
  have o1: "fst (await_cancel cs1 (Inr ()) s) \<noteq> None"
    using np by (simp add: await_cancel_ok split: promise_state.splits)
  have wa: "stderr (fst ?a) = stderr (fst s) @ [cleanup_sequence]"
    using run_loop_silent [of "cancel_call s" cs1] by (simp add: platform_defs)
  have ws1: "stderr (fst ?s1) = stderr (fst s) @ [cleanup_sequence]"
    using wa by (simp add: await_cancel_ok)
  have cs1: "cancelled (snd ?s1)" by (simp add: await_cancel_ok)
  have wb: "stderr (fst ?b) = stderr (fst s) @ [cleanup_sequence]"
    using run_loop_silent [OF cs1, of cs2] ws1 by simp
  have wc: "stderr (fst ?c) = stderr (fst s) @ [cleanup_sequence, cleanup_sequence]"
    using run_loop_silent [of "cancel_call ?b" cs3] wb by (simp add: platform_defs)
  have w2: "stderr (fst (snd (await_cancel cs3 (Inr ()) ?b)))
      = stderr (fst s) @ [cleanup_sequence, cleanup_sequence]"
    using wc by (simp add: await_cancel_ok [of cs3])
  show ?thesis using o2 o1 w2 by simp
qed

section \<open>The interval\<close>

lemma resume_timers:
  "set (timers (fst (spinInternal_resume r s))) \<subseteq> insert (ms (snd s)) (set (timers (fst s)))"
  by (cases s)
    (auto simp: while_loop_cases spinner_defs platform_defs
      split: internal_state.splits sum.splits)

lemma exec_timers:
  "set (timers (fst (exec ev s))) \<subseteq> insert (ms (snd s)) (set (timers (fst s)))"
  using resume_timers by (cases ev) (auto simp: platform_defs)

lemma run_timers:
  "set (timers (fst (run evs s))) \<subseteq> insert (ms (snd s)) (set (timers (fst s)))"
proof (induction evs arbitrary: s)
  case Nil
  show ?case by auto
next
  case (Cons ev evs)
  have "set (timers (fst (run evs (exec ev s))))
        \<subseteq> insert (ms (snd s)) (set (timers (fst (exec ev s))))"
    using Cons.IH [of "exec ev s"] by simp
  with exec_timers [of ev s] show ?case by auto
qed

text \<open>
  Claim C9. Called without an argument, \<^verbatim>\<open>spin\<close> uses an interval of 500
  milliseconds: that is the value of \<^verbatim>\<open>ms\<close>, the timer requested after the first
  frame is one of 500 milliseconds, and no schedule of events makes the spinner request
  a timer of another length. An argument that is given is used as it is.
\<close>

theorem spin_default_interval:
  "ms (snd (spin None w)) = 500
   \<and> timers (fst (run [LoopResumes (Inr ()), LoopResumes (Inr ())] (spin None w)))
       = timers w @ [500]
   \<and> set (timers (fst (run evs (spin None w)))) \<subseteq> insert 500 (set (timers w))
   \<and> ms (snd (spin (Some m) w)) = m"
proof -
  have "timers (fst (run [LoopResumes (Inr ()), LoopResumes (Inr ())] (spin None w)))
        = timers w @ [500]"
    by (simp add: spin_def while_loop_cases platform_defs)
  moreover have "set (timers (fst (run evs (spin None w)))) \<subseteq> insert 500 (set (timers w))"
    using run_timers [of evs "spin None w"] by (simp add: platform_defs)
  ultimately show ?thesis by simp
qed

section \<open>The key press\<close>

text \<open>
  Claim C10. \<^verbatim>\<open>waitForKeypress\<close> calls \<^verbatim>\<open>setRaw(false)\<close> before it ends, on every
  path: the last call on the input stream is \<^verbatim>\<open>setRaw(false)\<close> whether
  \<^verbatim>\<open>setRaw(true)\<close> throws, the read completes or the read fails. Until the read
  completes the function does not end. A failure of the read or of \<^verbatim>\<open>setRaw(true)\<close>
  is passed on after the call, and when \<^verbatim>\<open>setRaw(false)\<close> succeeds the stream is out
  of raw mode.
\<close>

theorem waitForKeypress_restores_raw_mode:
  "last (stdin_calls (snd (waitForKeypress r_on r_key r_off w))) = SetRaw False
   \<and> last (stdin_calls (snd (waitForKeypress_resume r_key r_off w))) = SetRaw False
   \<and> fst (waitForKeypress_call (Inr ()) r_off w) = None
   \<and> stdin_calls (snd (waitForKeypress_call (Inr ()) r_off w))
        = stdin_calls w @ [SetRaw True, Read]
   \<and> stdin_calls (snd (waitForKeypress (Inr ()) r_key r_off w))
        = stdin_calls w @ [SetRaw True, Read, SetRaw False]
   \<and> stdin_calls (snd (waitForKeypress (Inl e) r_key r_off w))
        = stdin_calls w @ [SetRaw True, SetRaw False]
   \<and> fst (waitForKeypress (Inr ()) (Inl e) (Inr ()) w) = Inl e
   \<and> fst (waitForKeypress (Inl e) r_key (Inr ()) w) = Inl e
   \<and> fst (waitForKeypress (Inr ()) (Inr ()) (Inr ()) w) = Inr ()
   \<and> \<not> stdin_raw (snd (waitForKeypress r_on r_key (Inr ()) w))"
  by (cases r_on; cases r_key; cases r_off)
    (simp_all add: waitForKeypress_def waitForKeypress_call_def waitForKeypress_resume_def
      platform_defs)

section \<open>The main program\<close>

text \<open>No step of the animation loop or of \<^verbatim>\<open>cancel\<close> issues a hide-cursor write.\<close>

lemma resume_no_hide:
  "\<exists>ws. stderr (fst (spinInternal_resume r s)) = stderr (fst s) @ ws
        \<and> TextEncoder_encode ANSI_CURSOR_HIDE \<notin> set ws"
  by (cases s)
    (simp add: while_loop_cases spinner_defs platform_defs hide_not_frame
      split: internal_state.splits sum.splits)

lemma exec_no_hide:
  "\<exists>ws. stderr (fst (exec ev s)) = stderr (fst s) @ ws
        \<and> TextEncoder_encode ANSI_CURSOR_HIDE \<notin> set ws"
proof (cases ev)
  case (LoopResumes r)
  then show ?thesis using resume_no_hide [of r s] by simp
next
  case CancelCalled
  then show ?thesis by (simp add: platform_defs hide_not_cleanup)
next
  case (CancelResumes r)
  then show ?thesis by simp
qed

lemma run_no_hide:
  "\<exists>ws. stderr (fst (run evs s)) = stderr (fst s) @ ws
        \<and> TextEncoder_encode ANSI_CURSOR_HIDE \<notin> set ws"
proof (induction evs arbitrary: s)
  case Nil
  show ?case by simp
next
  case (Cons ev evs)
  obtain ws1 where 1: "stderr (fst (exec ev s)) = stderr (fst s) @ ws1"
      "TextEncoder_encode ANSI_CURSOR_HIDE \<notin> set ws1"
    using exec_no_hide by blast
  obtain ws2 where 2: "stderr (fst (run evs (exec ev s))) = stderr (fst (exec ev s)) @ ws2"
      "TextEncoder_encode ANSI_CURSOR_HIDE \<notin> set ws2"
    using Cons.IH by blast
  have "stderr (fst (run (ev # evs) s)) = stderr (fst s) @ (ws1 @ ws2)"
    using 1 2 by simp
  moreover have "TextEncoder_encode ANSI_CURSOR_HIDE \<notin> set (ws1 @ ws2)"
    using 1 2 by simp
  ultimately show ?case by blast
qed

text \<open>
  \<^verbatim>\<open>main\<close> does not await \<^verbatim>\<open>done\<close> for ever: once the cleanup write of
  \<^verbatim>\<open>cancel\<close> completes, the signal is settled and \<^verbatim>\<open>await done\<close> continues.
\<close>

lemma await_done_settled:
  "promise (spin_done (snd s)) \<noteq> Pending \<Longrightarrow> fst (await_done evs s) \<noteq> Awaiting"
  by (cases evs; cases "promise (spin_done (snd s))") (simp_all add: await_now_def)

lemma await_done_settles:
  "CancelResumes (Inr ()) \<in> set evs \<Longrightarrow> fst (await_done evs s) \<noteq> Awaiting"
proof (induction evs arbitrary: s)
  case Nil
  then show ?case by simp
next
  case (Cons ev evs)
  show ?case
  proof (cases "await_now (promise (spin_done (snd s)))")
    case (Some outcome)
    then show ?thesis by simp
  next
    case None
    note pending = None
    show ?thesis
    proof (cases "cancel_rejection ev s")
      case (Some e)
      with pending show ?thesis by simp
    next
      case None
      show ?thesis
      proof (cases "ev = CancelResumes (Inr ())")
        case True
        have "promise (spin_done (snd (exec ev s))) \<noteq> Pending"
          using True by (simp add: cancel_resume_ok resolve_def promise_resolve_not_pending)
        then show ?thesis using pending None by (simp add: await_done_settled)
      next
        case False
        with Cons.prems have "CancelResumes (Inr ()) \<in> set evs" by simp
        then show ?thesis using pending None Cons.IH by simp
      qed
    qed
  qed
qed

lemma main_exits:
  assumes "CancelResumes (Inr ()) \<in> set (after_cancel env)"
  shows "fst (main env w) \<noteq> Awaiting"
proof -
  have "fst (await_done (after_cancel env) s) \<noteq> Awaiting" for s
    using assms by (rule await_done_settles)
  then have "await_done (after_cancel env) s \<noteq> (Awaiting, t)" for s t
    by (metis fst_conv)
  then show ?thesis
    by (auto simp: main_def main_try_def Let_def
        split: prod.splits option.splits sum.splits progress.splits)
qed

text \<open>
  When the first write fails, \<^verbatim>\<open>main\<close> ends before the \<^verbatim>\<open>try\<close> statement: no
  spinner exists and the cursor was never hidden.
\<close>

lemma main_first_write_fails:
  "working_written env = Inl e \<Longrightarrow>
   main env w =
     (Finished (Inl e),
      w\<lparr>stderr := stderr w @ [TextEncoder_encode (ascii ''Working... '')]\<rparr>, None)"
  by (simp add: main_def platform_defs)

text \<open>
  The \<^verbatim>\<open>finally\<close> block does its work whenever the \<^verbatim>\<open>try\<close> block is left, at its
  end or by an exception of \<^verbatim>\<open>setRaw\<close>, of the key read or of the awaited signal:
  the show-cursor sequence is then the last write handed to the sink, and whatever the
  animation loop and \<^verbatim>\<open>cancel\<close> still do afterwards, no hide-cursor sequence follows.
\<close>

lemma main_finally_when_try_is_left:
  assumes "working_written env = Inr ()" and "main env w = (Finished outcome, w', sp)"
  shows "last (stderr w') = [0x1B, 0x5B, 0x3F, 0x32, 0x35, 0x68]
    \<and> (\<exists>ws. stderr (fst (run evs (w', sp'))) = stderr w' @ ws
             \<and> TextEncoder_encode ANSI_CURSOR_HIDE \<notin> set ws)"
proof -
  have "last (stderr w') = [0x1B, 0x5B, 0x3F, 0x32, 0x35, 0x68]"
    using assms
    by (auto simp: main_def Let_def platform_defs show_bytes
        split: prod.splits option.splits sum.splits progress.splits)
  then show ?thesis using run_no_hide [of evs "(w', sp')"] by simp
qed

text \<open>
  Two runs in which the \<^verbatim>\<open>try\<close> block is left. The key is pressed after the
  hide-cursor write has completed: \<^verbatim>\<open>main\<close> reaches its end, and the sink has
  received the greeting, the hide-cursor sequence, one frame, the cleanup sequence and
  the show-cursor sequence. The read of the key fails: \<^verbatim>\<open>main\<close> ends with that
  failure, \<^verbatim>\<open>cancel\<close> was never called, and the show-cursor sequence is again the
  last write.
\<close>

lemma main_key_pressed:
  "main env_key_pressed world0 =
     (Finished (Inr ()),
      \<lparr>stderr = [[0x57, 0x6F, 0x72, 0x6B, 0x69, 0x6E, 0x67, 0x2E, 0x2E, 0x2E, 0x20],
         [0x1B, 0x5B, 0x3F, 0x32, 0x35, 0x6C],
         [0x1B, 0x5B, 0x31, 0x44, 0xE2, 0xA0, 0x80],
         [0x1B, 0x5B, 0x31, 0x44, 0x20, 0x1B, 0x5B, 0x31, 0x44, 0x1B, 0x5B, 0x3F, 0x32, 0x35, 0x68],
         [0x1B, 0x5B, 0x3F, 0x32, 0x35, 0x68]],
       timers = [], stdin_calls = [SetRaw True, SetRaw True, Read, SetRaw False],
       stdin_raw = False, stdout = [''Done!'']\<rparr>,
      Some \<lparr>ms = 500, cancelled = True,
        spin_done =
          \<lparr>promise = Fulfilled Undefined, priv_isResolved = True, priv_isRejected = False\<rparr>,
        internalPromise = AwaitFrame 0\<rparr>)"
  by (simp add: main_def main_try_def env_key_pressed_def world0_def spin_def
      waitForKeypress_call_def waitForKeypress_resume_def while_loop_cases cancel_resume_ok
      cancel_rejection_def platform_defs deferred_defs hide_bytes show_bytes cleanup_bytes
      hd_frames working_bytes)

lemma main_read_fails:
  "main env_read_fails world0 =
     (Finished (Inl (Error ''read failed'')),
      \<lparr>stderr = [[0x57, 0x6F, 0x72, 0x6B, 0x69, 0x6E, 0x67, 0x2E, 0x2E, 0x2E, 0x20],
         [0x1B, 0x5B, 0x3F, 0x32, 0x35, 0x6C],
         [0x1B, 0x5B, 0x31, 0x44, 0xE2, 0xA0, 0x80],
         [0x1B, 0x5B, 0x3F, 0x32, 0x35, 0x68]],
       timers = [], stdin_calls = [SetRaw True, SetRaw True, Read, SetRaw False],
       stdin_raw = False, stdout = []\<rparr>,
      Some \<lparr>ms = 500, cancelled = False, spin_done = Deferred_new,
        internalPromise = AwaitFrame 0\<rparr>)"
  by (simp add: main_def main_try_def env_read_fails_def env_key_pressed_def world0_def
      spin_def waitForKeypress_call_def waitForKeypress_resume_def while_loop_cases
      platform_defs hide_bytes show_bytes hd_frames working_bytes)

text \<open>
  Claim C8 says that on every exit path of the spinner's lifetime, failure paths
  included, the show-cursor sequence is written to the sink. \<^verbatim>\<open>main\<close> guards the
  lifetime with \<^verbatim>\<open>try\<close> and \<^verbatim>\<open>finally\<close>, but it calls \<^verbatim>\<open>cancel()\<close> without
  awaiting or catching it, and so one exit escapes the guard. In the run where the key
  is pressed after the first frame and the cleanup write of \<^verbatim>\<open>cancel\<close> fails, the signal
  is still pending, the promise of \<^verbatim>\<open>cancel()\<close> is rejected with nothing to handle
  it, and the process ends inside the \<^verbatim>\<open>try\<close> block: the \<^verbatim>\<open>finally\<close> block never
  runs. The sink has been handed the greeting, the hide-cursor sequence, one frame and
  the cleanup sequence whose write failed; no show-cursor write was issued, and
  \<^verbatim>\<open>Done!\<close> was not printed.
\<close>

theorem main_unhandled_rejection_skips_finally:
  "fst (main env_cleanup_fails world0) = Unhandled (Error ''write failed'')
   \<and> stderr (fst (snd (main env_cleanup_fails world0)))
      = [[0x57, 0x6F, 0x72, 0x6B, 0x69, 0x6E, 0x67, 0x2E, 0x2E, 0x2E, 0x20],
         [0x1B, 0x5B, 0x3F, 0x32, 0x35, 0x6C],
         [0x1B, 0x5B, 0x31, 0x44, 0xE2, 0xA0, 0x80],
         [0x1B, 0x5B, 0x31, 0x44, 0x20, 0x1B, 0x5B, 0x31, 0x44, 0x1B, 0x5B, 0x3F, 0x32, 0x35, 0x68]]
   \<and> count_list (stderr (fst (snd (main env_cleanup_fails world0))))
        (TextEncoder_encode ANSI_CURSOR_SHOW) = 0
   \<and> count_list (stderr (fst (snd (main env_cleanup_fails world0))))
        (TextEncoder_encode ANSI_CURSOR_HIDE) = 1
   \<and> stdout (fst (snd (main env_cleanup_fails world0))) = []
   \<and> map_option (\<lambda>sp. promise (spin_done sp)) (snd (snd (main env_cleanup_fails world0)))
       = Some Pending"
proof -
  have m: "main env_cleanup_fails world0 =
     (Unhandled (Error ''write failed''),
      \<lparr>stderr = [[0x57, 0x6F, 0x72, 0x6B, 0x69, 0x6E, 0x67, 0x2E, 0x2E, 0x2E, 0x20],
         [0x1B, 0x5B, 0x3F, 0x32, 0x35, 0x6C],
         [0x1B, 0x5B, 0x31, 0x44, 0xE2, 0xA0, 0x80],
         [0x1B, 0x5B, 0x31, 0x44, 0x20, 0x1B, 0x5B, 0x31, 0x44, 0x1B, 0x5B, 0x3F, 0x32, 0x35, 0x68]],
       timers = [], stdin_calls = [SetRaw True, SetRaw True, Read, SetRaw False],
       stdin_raw = False, stdout = []\<rparr>,
      Some \<lparr>ms = 500, cancelled = True, spin_done = Deferred_new,
        internalPromise = AwaitFrame 0\<rparr>)"
    by (simp add: main_def main_try_def env_cleanup_fails_def env_key_pressed_def world0_def
        spin_def waitForKeypress_call_def waitForKeypress_resume_def while_loop_cases
        cancel_resume_failed cancel_rejection_def platform_defs deferred_defs hide_bytes
        show_bytes cleanup_bytes hd_frames working_bytes)
  show ?thesis
    by (simp add: m hide_bytes show_bytes Deferred_new_def)
qed

end
